theory Spec2Isabelle
  imports Main "HOL-Library.AList" "HOL-Library.Sublist"
begin

section \<open>JavaScript strings and thrown values\<close>

text \<open>
  A JavaScript string is a sequence of UTF-16 code units. The embedding covers the
  strings whose code units are below 256 (one \<^typ>\<open>char\<close> per code unit), so that
  \<open>s.length\<close> is \<^term>\<open>length s\<close>. A string is falsy exactly when it is empty.
\<close>

text \<open>
  \<open>toLowerCase\<close> on these code units changes \<open>A\<close>..\<open>Z\<close> (65..90) and the upper-case
  letters of Latin-1 (192..222 without 215) to the code unit 32 above; in both ranges bit 5
  is clear, so adding 32 sets it.
\<close>

definition is_upper_unit :: "char \<Rightarrow> bool" where
  "is_upper_unit c =
     (let n = (of_char c :: nat)
      in (65 \<le> n \<and> n \<le> 90) \<or> (192 \<le> n \<and> n \<le> 222 \<and> n \<noteq> 215))"

fun set_bit5 :: "char \<Rightarrow> char" where
  "set_bit5 (Char b0 b1 b2 b3 b4 b5 b6 b7) = Char b0 b1 b2 b3 b4 True b6 b7"

definition lower_unit :: "char \<Rightarrow> char" where
  "lower_unit c = (if is_upper_unit c then set_bit5 c else c)"

definition toLowerCase :: "string \<Rightarrow> string" where
  "toLowerCase s = map lower_unit s"

text \<open>\<open>s.includes(q)\<close>: \<open>q\<close> starts at some position of \<open>s\<close>.\<close>

fun string_includes :: "string \<Rightarrow> string \<Rightarrow> bool" where
  "string_includes [] q = (q = [])"
| "string_includes (c # s) q = (prefix q (c # s) \<or> string_includes s q)"

text \<open>\<open>s.lastIndexOf(c)\<close> for a one-character \<open>c\<close>; \<open>None\<close> is the result -1.\<close>

fun lastIndexOf :: "string \<Rightarrow> char \<Rightarrow> nat option" where
  "lastIndexOf [] c = None"
| "lastIndexOf (x # s) c =
     (case lastIndexOf s c of
        Some i \<Rightarrow> Some (Suc i)
      | None \<Rightarrow> if x = c then Some 0 else None)"

text \<open>
  A thrown value is an \<open>Error\<close> with its message, \<open>null\<close> or \<open>undefined\<close>
  (\<open>Nullish\<close>), or anything else; the handlers of the source show \<open>err.message\<close> for
  the first and a fixed text for the others. \<open>v ?? d\<close> is \<open>d\<close> exactly when \<open>v\<close> is
  nullish: \<open>non_nullish\<close> is \<open>None\<close> then.
\<close>

datatype thrown = Error string | Nullish | NonError

fun message_or :: "string \<Rightarrow> thrown \<Rightarrow> string" where
  "message_or dflt (Error m) = m"
| "message_or dflt Nullish = dflt"
| "message_or dflt NonError = dflt"

fun non_nullish :: "thrown \<Rightarrow> thrown option" where
  "non_nullish Nullish = None"
| "non_nullish e = Some e"

section \<open>The strand cache (lib/codexCache)\<close>

record CachedRow =
  row_path :: string
  row_content :: string
  updated_at :: string

record CodexCacheStats =
  totalItems :: nat
  totalBytes :: nat

text \<open>
  \<open>memoryCache\<close> is a JavaScript \<open>Map<string, CachedRow>\<close>: keys are kept in insertion
  order, \<open>set\<close> on a present key replaces the value in place and on an absent key
  appends the entry. \<^const>\<open>AList.update\<close> is that operation on an association list;
  the module starts with the empty map.
\<close>

type_synonym memoryCache = "(string \<times> CachedRow) list"

definition getCachedStrand :: "memoryCache \<Rightarrow> string \<Rightarrow> string option" where
  "getCachedStrand cache p =
     (if p = [] then None
      else case map_of cache p of
             None \<Rightarrow> None
           | Some row \<Rightarrow> Some (row_content row))"

text \<open>\<open>now\<close> stands for \<open>new Date().toISOString()\<close> at the time of the call.\<close>

definition setCachedStrand :: "string \<Rightarrow> string \<Rightarrow> string \<Rightarrow> memoryCache \<Rightarrow> memoryCache" where
  "setCachedStrand now p c cache =
     (if p = [] then cache
      else AList.update p \<lparr>row_path = p, row_content = c, updated_at = now\<rparr> cache)"

definition getCodexCacheStats :: "memoryCache \<Rightarrow> CodexCacheStats" where
  "getCodexCacheStats cache =
     \<lparr>totalItems = length cache,
      totalBytes = foldl (\<lambda>total (k, row). total + length (row_content row)) 0 cache\<rparr>"

definition clearCodexCache :: "memoryCache \<Rightarrow> memoryCache" where
  "clearCodexCache cache = []"

text \<open>A call that changes the cache, and a sequence of such calls run in order.\<close>

datatype cache_call =
  SetCachedStrand string string string
  | ClearCodexCache

fun run_call :: "memoryCache \<Rightarrow> cache_call \<Rightarrow> memoryCache" where
  "run_call cache (SetCachedStrand now p c) = setCachedStrand now p c cache"
| "run_call cache ClearCodexCache = clearCodexCache cache"

definition run_calls :: "cache_call list \<Rightarrow> memoryCache \<Rightarrow> memoryCache" where
  "run_calls calls cache = foldl run_call cache calls"

text \<open>The paths a call sequence writes: the first arguments of its \<open>setCachedStrand\<close> calls.\<close>

fun written_path :: "cache_call \<Rightarrow> string list" where
  "written_path (SetCachedStrand now p c) = [p]"
| "written_path ClearCodexCache = []"

definition written_paths :: "cache_call list \<Rightarrow> string set" where
  "written_paths calls = set (concat (map written_path calls))"

text \<open>
  What a call sequence has written, in the claim's words: the calls after the last
  \<open>clearCodexCache\<close>, the (path, content) pairs their \<open>setCachedStrand\<close> calls
  store under a non-empty path, and for each path the content stored last.
\<close>

definition since_last_clear :: "cache_call list \<Rightarrow> cache_call list" where
  "since_last_clear calls = rev (takeWhile (\<lambda>c. c \<noteq> ClearCodexCache) (rev calls))"

fun write_of :: "cache_call \<Rightarrow> (string \<times> string) list" where
  "write_of (SetCachedStrand now p c) = (if p = [] then [] else [(p, c)])"
| "write_of ClearCodexCache = []"

definition writes :: "cache_call list \<Rightarrow> (string \<times> string) list" where
  "writes calls = concat (map write_of (since_last_clear calls))"

definition latest_content :: "cache_call list \<Rightarrow> string \<Rightarrow> string option" where
  "latest_content calls p = map_of (rev (writes calls)) p"

section \<open>The search engine (lib/search/engine.ts)\<close>

record SearchOptions_engine =
  limit :: "nat option"
  semantic :: "bool option"
  threshold :: "nat option"

record CodexSearchResult =
  result_path :: string
  title :: string
  excerpt :: string
  score :: nat

text \<open>The engine holds the indexed files; \<open>'f\<close> is the type of a file (\<open>any\<close> in the source).\<close>

record 'f SimpleSearchEngine =
  files :: "'f list"

definition index :: "'f list \<Rightarrow> 'f SimpleSearchEngine \<Rightarrow> 'f SimpleSearchEngine" where
  "index fs eng = eng\<lparr>files := fs\<rparr>"

text \<open>
  \<open>search\<close> lower-cases the query into \<open>q\<close>, waits 100 ms and returns \<open>results\<close>, which
  nothing has been pushed to; neither \<open>q\<close> nor the indexed files are read.
\<close>

definition search ::
  "'f SimpleSearchEngine \<Rightarrow> string \<Rightarrow> SearchOptions_engine option \<Rightarrow> CodexSearchResult list" where
  "search eng query options =
     (if query = [] then []
      else let results = [] in results)"

definition canUseSemantic :: "'f SimpleSearchEngine \<Rightarrow> bool" where
  "canUseSemantic eng = False"

section \<open>Files, constants and utilities (codex/types, codex/constants, codex/utils)\<close>

datatype file_type = File | Dir

record GitHubFile =
  file_name :: string
  file_path :: string
  file_type :: file_type
  sha :: string
  file_size :: "nat option"
  url :: string
  html_url :: string
  download_url :: "string option"

datatype FileFilterScope = All | Strands | Media | Configs

datatype NavigationRootScope = FabricRoot | WeavesRoot

definition MARKDOWN_EXTENSIONS :: "string list" where
  "MARKDOWN_EXTENSIONS = [''.md'', ''.mdx'']"

definition MEDIA_EXTENSIONS_images :: "string list" where
  "MEDIA_EXTENSIONS_images =
     [''.jpg'', ''.jpeg'', ''.png'', ''.gif'', ''.webp'', ''.svg'', ''.bmp'', ''.ico'']"

definition MEDIA_EXTENSIONS_audio :: "string list" where
  "MEDIA_EXTENSIONS_audio = [''.mp3'', ''.wav'', ''.ogg'', ''.m4a'', ''.aac'', ''.flac'', ''.webm'']"

definition MEDIA_EXTENSIONS_video :: "string list" where
  "MEDIA_EXTENSIONS_video = [''.mp4'', ''.webm'', ''.ogv'', ''.mov'', ''.avi'', ''.mkv'']"

definition MEDIA_EXTENSIONS_documents :: "string list" where
  "MEDIA_EXTENSIONS_documents = [''.pdf'']"

definition TEXT_FILE_EXTENSIONS :: "string list" where
  "TEXT_FILE_EXTENSIONS =
     [''.json'', ''.yaml'', ''.yml'', ''.toml'', ''.ini'', ''.cfg'', ''.conf'', ''.txt'', ''.log'',
      ''.env'', ''.gitignore'', ''.gitattributes'', ''.mdxconfig'', ''.schema'']"

definition MEDIA_EXTENSION_SET :: "string set" where
  "MEDIA_EXTENSION_SET =
     set (map toLowerCase
       (MEDIA_EXTENSIONS_images @ MEDIA_EXTENSIONS_audio @ MEDIA_EXTENSIONS_video @
        MEDIA_EXTENSIONS_documents))"

definition TEXT_EXTENSION_SET :: "string set" where
  "TEXT_EXTENSION_SET = set (map toLowerCase TEXT_FILE_EXTENSIONS)"

definition getExtension :: "string \<Rightarrow> string" where
  "getExtension filename =
     (case lastIndexOf filename CHR ''.'' of
        None \<Rightarrow> []
      | Some lastDot \<Rightarrow> toLowerCase (drop lastDot filename))"

definition isPreviewableTextFile :: "string \<Rightarrow> bool" where
  "isPreviewableTextFile filename =
     (let ext = getExtension filename in if ext \<noteq> [] then ext \<in> TEXT_EXTENSION_SET else False)"

definition isMediaFile :: "string \<Rightarrow> bool" where
  "isMediaFile filename =
     (let ext = getExtension filename in if ext \<noteq> [] then ext \<in> MEDIA_EXTENSION_SET else False)"

text \<open>
  Modelled from the spec: \<open>isMarkdownFile\<close>, which \<open>codex/utils\<close> re-exports from
  \<open>packages/codex-viewer/src/lib/utils\<close>; that file is not part of the sources. The spec
  calls a file markdown when it has a \<open>.md\<close>/\<open>.mdx\<close> extension, case-insensitive: the
  lower-cased name ends with one of \<open>MARKDOWN_EXTENSIONS\<close>.
\<close>

definition isMarkdownFile :: "string \<Rightarrow> bool" where
  "isMarkdownFile filename =
     list_ex (\<lambda>ext. suffix ext (toLowerCase filename)) MARKDOWN_EXTENSIONS"

definition shouldShowFile ::
  "GitHubFile \<Rightarrow> FileFilterScope \<Rightarrow> bool \<Rightarrow> string list \<Rightarrow> bool" where
  "shouldShowFile file scope includeMarkdown extraExtensions =
     (if file_type file = Dir then True
      else let ext = getExtension (file_name file)
           in if extraExtensions \<noteq> [] \<and> ext \<noteq> [] \<and> ext \<notin> set extraExtensions then False
              else (case scope of
                      Strands \<Rightarrow> isMarkdownFile (file_name file)
                    | Media \<Rightarrow> isMediaFile (file_name file)
                    | Configs \<Rightarrow> isPreviewableTextFile (file_name file)
                    | All \<Rightarrow> True))"

section \<open>The search/filter hook (codex/hooks/useSearchFilter)\<close>

datatype difficulty = Beginner | Intermediate | Advanced

record SearchOptions =
  query :: string
  searchNames :: bool
  searchContent :: bool
  caseSensitive :: bool
  difficulty :: "difficulty option"
  tags :: "string list option"
  subjects :: "string list option"
  filterScope :: FileFilterScope
  hideEmptyFolders :: bool
  rootScope :: NavigationRootScope

text \<open>
  The value of the \<open>filteredFiles\<close> memo for the hook's file list and its current
  options. Steps 1 (scope) and 3 (empty folders) of the source have empty bodies.
\<close>

definition filteredFiles :: "GitHubFile list \<Rightarrow> SearchOptions \<Rightarrow> GitHubFile list" where
  "filteredFiles fs options =
     (if fs = [] then []
      else if query options \<noteq> []
      then (let q = (if caseSensitive options then query options else toLowerCase (query options))
            in filter (\<lambda>f.
                 let name = (if caseSensitive options then file_name f else toLowerCase (file_name f));
                     path = (if caseSensitive options then file_path f else toLowerCase (file_path f))
                 in if searchNames options \<and> string_includes name q then True
                    else if string_includes path q then True
                    else False) fs)
      else fs)"

text \<open>
  The query predicate in the words of the spec: an empty query keeps every file; otherwise
  the query is a substring of the name (when names are searched) or of the path, both
  sides lower-cased unless the search is case-sensitive.
\<close>

definition fold_case :: "SearchOptions \<Rightarrow> string \<Rightarrow> string" where
  "fold_case options s = (if caseSensitive options then s else toLowerCase s)"

definition name_matches :: "SearchOptions \<Rightarrow> GitHubFile \<Rightarrow> bool" where
  "name_matches options f =
     sublist (fold_case options (query options)) (fold_case options (file_name f))"

definition path_matches :: "SearchOptions \<Rightarrow> GitHubFile \<Rightarrow> bool" where
  "path_matches options f =
     sublist (fold_case options (query options)) (fold_case options (file_path f))"

definition query_predicate :: "SearchOptions \<Rightarrow> GitHubFile \<Rightarrow> bool" where
  "query_predicate options f =
     (query options = [] \<or> (searchNames options \<and> name_matches options f) \<or>
      path_matches options f)"

text \<open>The scope predicate: \<open>shouldShowFile\<close> as the sidebar calls it on a tree node.\<close>

definition scope_predicate :: "SearchOptions \<Rightarrow> GitHubFile \<Rightarrow> bool" where
  "scope_predicate options f = shouldShowFile f (filterScope options) False []"

text \<open>Two option values: the media scope with no query, and a path query with name search off.\<close>

definition media_scope_options :: SearchOptions where
  "media_scope_options = \<lparr>query = '''', searchNames = True, searchContent = False,
     caseSensitive = False, difficulty = None, tags = None, subjects = None,
     filterScope = Media, hideEmptyFolders = False, rootScope = FabricRoot\<rparr>"

definition path_query_options :: SearchOptions where
  "path_query_options = \<lparr>query = ''Weaves/'', searchNames = False, searchContent = False,
     caseSensitive = False, difficulty = None, tags = None, subjects = None,
     filterScope = All, hideEmptyFolders = False, rootScope = FabricRoot\<rparr>"

section \<open>Fetching a file's content (CodexViewer.fetchFileContent)\<close>

record response =
  ok :: bool
  statusText :: string
  body_text :: "thrown + string"

datatype effect =
  ConsoleError string
  | Fetch string
  | RecordView string string
  | UpdateURL string string

record ('c, 'm) viewer =
  loading :: bool
  error :: "string option"
  fileContent :: string
  selectedFile :: "GitHubFile option"
  fileMetadata :: 'm
  viewer_cache :: 'c
  effects :: "effect list"

text \<open>
  The body of the \<open>try\<close> block up to the value of \<open>content\<close>. A throw is \<open>Inl\<close> with the
  thrown value and the state reached; the cache adapter is a parameter (\<open>cache_get\<close>,
  \<open>cache_set\<close> on a cache state \<open>'c\<close>), as is the network (\<open>fetch\<close>).
  \<open>fetch_and_store\<close> is the branch \<open>if (!cached)\<close>.
\<close>

definition fetch_and_store ::
  "('c \<Rightarrow> string \<Rightarrow> string \<Rightarrow> thrown + 'c) \<Rightarrow> (string \<Rightarrow> thrown + response) \<Rightarrow>
   string \<Rightarrow> string \<Rightarrow> ('c, 'm) viewer \<Rightarrow> (thrown \<times> ('c, 'm) viewer) + (string \<times> ('c, 'm) viewer)" where
  "fetch_and_store cache_set fetch cacheKey download s =
     (let s1 = s\<lparr>effects := effects s @ [Fetch download]\<rparr> in
      case fetch download of
        Inl err \<Rightarrow> Inl (err, s1)
      | Inr response \<Rightarrow>
          if \<not> ok response
          then Inl (Error (''Failed to fetch file: '' @ statusText response), s1)
          else (case body_text response of
                  Inl err \<Rightarrow> Inl (err, s1)
                | Inr content \<Rightarrow>
                    (case cache_set (viewer_cache s1) cacheKey content of
                       Inl err \<Rightarrow> Inl (err, s1)
                     | Inr cache' \<Rightarrow> Inr (content, s1\<lparr>viewer_cache := cache'\<rparr>))))"

definition load_content ::
  "('c \<Rightarrow> string \<Rightarrow> thrown + string option) \<Rightarrow> ('c \<Rightarrow> string \<Rightarrow> string \<Rightarrow> thrown + 'c) \<Rightarrow>
   (string \<Rightarrow> thrown + response) \<Rightarrow> string \<Rightarrow> string \<Rightarrow> ('c, 'm) viewer \<Rightarrow>
   (thrown \<times> ('c, 'm) viewer) + (string \<times> ('c, 'm) viewer)" where
  "load_content cache_get cache_set fetch cacheKey download s =
     (case cache_get (viewer_cache s) cacheKey of
        Inl err \<Rightarrow> Inl (err, s)
      | Inr None \<Rightarrow> fetch_and_store cache_set fetch cacheKey download s
      | Inr (Some cached) \<Rightarrow>
          if cached = [] then fetch_and_store cache_set fetch cacheKey download s
          else Inr (cached, s))"

text \<open>
  \<open>fetchFileContent\<close>: one \<open>try\<close>/\<open>catch\<close>/\<open>finally\<close> around the cache lookup, the
  network fetch and the state updates. \<open>parseWikiMetadata\<close>, \<open>recordView\<close> and
  \<open>updateURL\<close> are taken not to throw.
\<close>

definition fetchFileContent ::
  "('c \<Rightarrow> string \<Rightarrow> thrown + string option) \<Rightarrow> ('c \<Rightarrow> string \<Rightarrow> string \<Rightarrow> thrown + 'c) \<Rightarrow>
   (string \<Rightarrow> thrown + response) \<Rightarrow> (string \<Rightarrow> 'm) \<Rightarrow> string \<Rightarrow>
   GitHubFile \<Rightarrow> ('c, 'm) viewer \<Rightarrow> ('c, 'm) viewer" where
  "fetchFileContent cache_get cache_set fetch parseWikiMetadata currentPath file s =
     (case download_url file of
        None \<Rightarrow> s
      | Some download \<Rightarrow>
          if file_type file \<noteq> File \<or> download = [] then s
          else
            (case load_content cache_get cache_set fetch (file_path file) download
                    (s\<lparr>loading := True, error := None\<rparr>) of
               Inl (err, s1) \<Rightarrow>
                 s1\<lparr>effects := effects s1 @ [ConsoleError ''Error fetching file content:''],
                    error := Some (message_or ''Failed to fetch file content'' err),
                    loading := False\<rparr>
             | Inr (content, s1) \<Rightarrow>
                 (let s2 = s1\<lparr>fileContent := content, selectedFile := Some file\<rparr>;
                      s3 = (if isMarkdownFile (file_name file)
                            then s2\<lparr>fileMetadata := parseWikiMetadata content\<rparr> else s2)
                  in s3\<lparr>effects := effects s3 @
                            [RecordView (file_path file) (file_name file),
                             UpdateURL currentPath (file_path file)],
                        loading := False\<rparr>)))"

text \<open>The cache adapter of this repository: the in-memory map, which never throws.\<close>

definition memory_get :: "memoryCache \<Rightarrow> string \<Rightarrow> thrown + string option" where
  "memory_get c p = Inr (getCachedStrand c p)"

definition memory_set :: "string \<Rightarrow> memoryCache \<Rightarrow> string \<Rightarrow> string \<Rightarrow> thrown + memoryCache" where
  "memory_set now c p v = Inr (setCachedStrand now p v c)"

text \<open>A network that answers, a file and a viewer state.\<close>

definition strand_response :: "string \<Rightarrow> thrown + response" where
  "strand_response u = Inr \<lparr>ok = True, statusText = ''OK'', body_text = Inr ''# A''\<rparr>"

definition strand_file :: GitHubFile where
  "strand_file = \<lparr>file_name = ''a.md'', file_path = ''weaves/a.md'', file_type = File, sha = '''',
     file_size = None, url = '''', html_url = '''', download_url = Some ''https://raw/a.md''\<rparr>"

definition idle_viewer :: "(memoryCache, string) viewer" where
  "idle_viewer = \<lparr>loading = False, error = None, fileContent = '''', selectedFile = None,
     fileMetadata = '''', viewer_cache = [], effects = []\<rparr>"

section \<open>Fetching the repository tree (codex/hooks/useGithubTree)\<close>

text \<open>
  \<open>Array.from(new Set(xs))\<close>: the elements of \<open>xs\<close> in the order of their first occurrence.
\<close>

fun from_Set :: "'a list \<Rightarrow> 'a list" where
  "from_Set xs = foldl (\<lambda>acc x. if x \<in> set acc then acc else acc @ [x]) [] xs"

definition branchCandidates :: "string \<Rightarrow> string list" where
  "branchCandidates BRANCH = from_Set (filter (\<lambda>b. b \<noteq> []) [''master'', ''main'', BRANCH])"

text \<open>
  The state of \<open>fetchTree\<close> while it looks for a branch: its local variables, the
  module's \<open>REPO_CONFIG.BRANCH\<close> and warning flags, the console, and the calls made to the
  two fetchers (owner and repository name are fixed, so a call is its branch).
  \<open>lastError\<close> holds \<open>null\<close> (\<open>None\<close>) or the value last assigned to it.
\<close>

datatype tree_call = GraphQL string | REST string

datatype console_line = Warn string | Err string

record 'e tree_fetch =
  rawEntries :: "'e list"
  BRANCH :: string
  fetchSucceeded :: bool
  lastError :: "thrown option"
  tree_calls :: "tree_call list"
  graphQlWarningLogged :: bool
  restWarningLogged :: bool
  console :: "console_line list"

definition warn_once :: "bool \<Rightarrow> string \<Rightarrow> console_line list \<Rightarrow> console_line list" where
  "warn_once logged msg out = (if logged then out else out @ [Warn msg])"

fun branch_loop ::
  "(string \<Rightarrow> thrown + 'e list) \<Rightarrow> (string \<Rightarrow> thrown + 'e list) \<Rightarrow> string list \<Rightarrow>
   'e tree_fetch \<Rightarrow> 'e tree_fetch" where
  "branch_loop fetchGithubTree fetchGithubTreeREST [] s = s"
| "branch_loop fetchGithubTree fetchGithubTreeREST (branch # rest) s =
     (let s1 = s\<lparr>tree_calls := tree_calls s @ [GraphQL branch]\<rparr> in
      case fetchGithubTree branch of
        Inr entries \<Rightarrow> s1\<lparr>rawEntries := entries, BRANCH := branch, fetchSucceeded := True\<rparr>
      | Inl graphqlError \<Rightarrow>
          (let s2 = s1\<lparr>console := warn_once (graphQlWarningLogged s1)
                          ''Codex GitHub GraphQL unavailable, switching to REST.'' (console s1),
                        graphQlWarningLogged := True,
                        tree_calls := tree_calls s1 @ [REST branch]\<rparr> in
           case fetchGithubTreeREST branch of
             Inr entries \<Rightarrow> s2\<lparr>rawEntries := entries, BRANCH := branch, fetchSucceeded := True\<rparr>
           | Inl restError \<Rightarrow>
               branch_loop fetchGithubTree fetchGithubTreeREST rest
                 (s2\<lparr>lastError := non_nullish restError,
                     console := warn_once (restWarningLogged s2)
                        ''Codex GitHub REST fallback failed, trying next branch.'' (console s2),
                     restWarningLogged := True\<rparr>)))"

text \<open>
  Lines 211 to 243 of \<open>fetchTree\<close>: the candidates from the configured branch
  \<open>REPO_CONFIG.BRANCH\<close>, the loop, and the \<open>throw\<close> after it. A throw is \<open>Inl\<close> with the
  thrown value and the state reached (the calls made, the console and the module's flags
  stay as they are); \<open>fetch_state\<close> and \<open>fetch_thrown\<close> read the two parts of the outcome.
\<close>

definition fetch_entries ::
  "(string \<Rightarrow> thrown + 'e list) \<Rightarrow> (string \<Rightarrow> thrown + 'e list) \<Rightarrow>
   'e tree_fetch \<Rightarrow> (thrown \<times> 'e tree_fetch) + 'e tree_fetch" where
  "fetch_entries fetchGithubTree fetchGithubTreeREST s0 =
     (let branchCandidates = branchCandidates (BRANCH s0);
          s = branch_loop fetchGithubTree fetchGithubTreeREST branchCandidates
                (s0\<lparr>rawEntries := [], fetchSucceeded := False, lastError := None\<rparr>)
      in if \<not> fetchSucceeded s
         then Inl (case lastError s of
                     Some e \<Rightarrow> e
                   | None \<Rightarrow> Error ''Unable to fetch Git tree from GitHub.'', s)
         else Inr s)"

definition fetch_state :: "(thrown \<times> 'e tree_fetch) + 'e tree_fetch \<Rightarrow> 'e tree_fetch" where
  "fetch_state outcome = (case outcome of Inl (e, s) \<Rightarrow> s | Inr s \<Rightarrow> s)"

definition fetch_thrown :: "(thrown \<times> 'e tree_fetch) + 'e tree_fetch \<Rightarrow> thrown option" where
  "fetch_thrown outcome = (case outcome of Inl (e, s) \<Rightarrow> Some e | Inr s \<Rightarrow> None)"

text \<open>
  The claim's words: a candidate succeeds when GraphQL or REST answers for it; it costs one
  GraphQL call, and one REST call when GraphQL failed; the candidates attempted are the
  failing ones before the first success, and that one.
\<close>

definition candidate_succeeds ::
  "(string \<Rightarrow> thrown + 'e list) \<Rightarrow> (string \<Rightarrow> thrown + 'e list) \<Rightarrow> string \<Rightarrow> bool" where
  "candidate_succeeds gq rest b = (\<not> isl (gq b) \<or> \<not> isl (rest b))"

definition candidate_calls ::
  "(string \<Rightarrow> thrown + 'e list) \<Rightarrow> string \<Rightarrow> tree_call list" where
  "candidate_calls gq b = (if isl (gq b) then [GraphQL b, REST b] else [GraphQL b])"

definition attempted ::
  "(string \<Rightarrow> thrown + 'e list) \<Rightarrow> (string \<Rightarrow> thrown + 'e list) \<Rightarrow> string list \<Rightarrow> string list" where
  "attempted gq rest cands =
     takeWhile (\<lambda>b. \<not> candidate_succeeds gq rest b) cands @
     take 1 (dropWhile (\<lambda>b. \<not> candidate_succeeds gq rest b) cands)"

text \<open>
  What is thrown when no candidate succeeds: the value REST rejected with for the last
  candidate, or the fixed error when that value is nullish.
\<close>

definition last_rest_error :: "(string \<Rightarrow> thrown + 'e list) \<Rightarrow> string list \<Rightarrow> thrown" where
  "last_rest_error rest cands =
     (case rest (last cands) of
        Inl (Error m) \<Rightarrow> Error m
      | Inl NonError \<Rightarrow> NonError
      | _ \<Rightarrow> Error ''Unable to fetch Git tree from GitHub.'')"

text \<open>
  Two runs with the configured branch \<open>dev\<close>: GraphQL is down and REST knows the branch
  \<open>main\<close> only; GraphQL is down and REST rejects with \<open>null\<close>.
\<close>

definition idle_tree_fetch :: "nat tree_fetch" where
  "idle_tree_fetch = \<lparr>rawEntries = [], BRANCH = ''dev'', fetchSucceeded = False, lastError = None,
     tree_calls = [], graphQlWarningLogged = False, restWarningLogged = False, console = []\<rparr>"

definition graphql_down :: "string \<Rightarrow> thrown + nat list" where
  "graphql_down branch = Inl (Error ''GraphQL unavailable'')"

definition rest_main_only :: "string \<Rightarrow> thrown + nat list" where
  "rest_main_only branch = (if branch = ''main'' then Inr [1, 2] else Inl (Error ''404''))"

definition rest_rejects_null :: "string \<Rightarrow> thrown + nat list" where
  "rest_rejects_null branch = Inl Nullish"

section \<open>The control-flag strip pass (lib/remark/remarkStripControlFlags.ts)\<close>

text \<open>
  \<open>CONTROL_FLAG_REGEX\<close> is \<open>/::[\w-]+::/g\<close>. \<open>[\w-]\<close> is a letter \<open>A\<close>..\<open>Z\<close>,
  \<open>a\<close>..\<open>z\<close>, a digit, \<open>_\<close> or \<open>-\<close>. \<open>match_flag s\<close> matches the expression at the start
  of \<open>s\<close> and returns what follows the match: after \<open>::\<close> the greedy \<open>[\w-]+\<close> takes the
  longest run of such characters, which must be non-empty and followed by \<open>::\<close>; giving
  characters back cannot help, since the character after a shorter run is in the class
  and so is not a colon.
\<close>

definition is_flag_char :: "char \<Rightarrow> bool" where
  "is_flag_char c =
     (let n = (of_char c :: nat)
      in (65 \<le> n \<and> n \<le> 90) \<or> (97 \<le> n \<and> n \<le> 122) \<or> (48 \<le> n \<and> n \<le> 57) \<or>
         n = 95 \<or> n = 45)"

definition match_flag :: "string \<Rightarrow> string option" where
  "match_flag s =
     (if prefix ''::'' s
      then (let word = takeWhile is_flag_char (drop 2 s);
                after = dropWhile is_flag_char (drop 2 s)
            in if word \<noteq> [] \<and> prefix ''::'' after then Some (drop 2 after) else None)
      else None)"

text \<open>
  \<open>s.replace(CONTROL_FLAG_REGEX, '')\<close>: one scan from the left; a match is dropped and
  the scan goes on after it, any other character is kept.
\<close>

function replace_flags :: "string \<Rightarrow> string" where
  "replace_flags [] = []"
| "replace_flags (c # s) =
     (case match_flag (c # s) of
        Some r \<Rightarrow> replace_flags r
      | None \<Rightarrow> c # replace_flags s)"
  by pat_completeness auto
termination
proof (relation "measure length")
  show "wf (measure length)" by simp
next
  fix c s r
  assume m: "match_flag (c # s) = Some r"
  then have r: "r = drop 2 (dropWhile is_flag_char (drop 2 (c # s)))"
    by (auto simp: match_flag_def Let_def split: if_splits)
  have "length (dropWhile is_flag_char (drop 2 (c # s))) \<le> length (drop 2 (c # s))"
    by (rule length_dropWhile_le)
  with r show "(r, c # s) \<in> measure length" by simp
next
  fix c :: char and s :: string
  show "(s, c # s) \<in> measure length" by simp
qed

text \<open>
  \<open>CONTROL_FLAG_REGEX.test(s)\<close> on the global expression searches from \<open>lastIndex\<close> and
  leaves \<open>lastIndex\<close> at the end of the match it finds, or at 0 when there is none;
  \<open>replace\<close> starts from 0 and leaves 0. \<open>first_match_end\<close> is the end of the first match.
\<close>

function first_match_end :: "string \<Rightarrow> nat option" where
  "first_match_end [] = None"
| "first_match_end (c # s) =
     (case match_flag (c # s) of
        Some r \<Rightarrow> Some (length (c # s) - length r)
      | None \<Rightarrow> map_option Suc (first_match_end s))"
  by pat_completeness auto
termination
  by (relation "measure length") auto

definition regex_test :: "string \<Rightarrow> nat \<Rightarrow> bool \<times> nat" where
  "regex_test s lastIndex =
     (if lastIndex > length s then (False, 0)
      else case first_match_end (drop lastIndex s) of
             Some e \<Rightarrow> (True, lastIndex + e)
           | None \<Rightarrow> (False, 0))"

definition regex_replace :: "string \<Rightarrow> nat \<Rightarrow> string \<times> nat" where
  "regex_replace s lastIndex = (replace_flags s, 0)"

text \<open>
  An mdast tree: a text node, another node with a value (\<open>inlineCode\<close>, \<open>code\<close>,
  \<open>html\<close>, ...) or a node with a type and children. \<open>visit(tree, 'text', ...)\<close> calls the
  visitor on the text nodes in document order; the regular expression is one object of
  the module, so its \<open>lastIndex\<close> is threaded through the visit. The visitor returns at
  once on a node without parent, which is the root.
\<close>

datatype mdast = Text string | Literal string string | Parent string "mdast list"

definition visitor :: "string \<Rightarrow> nat \<Rightarrow> string \<times> nat" where
  "visitor v lastIndex =
     (case regex_test v lastIndex of
        (True, lastIndex') \<Rightarrow> regex_replace v lastIndex'
      | (False, lastIndex') \<Rightarrow> (v, lastIndex'))"

fun visit_child :: "mdast \<Rightarrow> nat \<Rightarrow> mdast \<times> nat"
  and visit_children :: "mdast list \<Rightarrow> nat \<Rightarrow> mdast list \<times> nat" where
  "visit_child (Text v) lastIndex = (case visitor v lastIndex of (v', l) \<Rightarrow> (Text v', l))"
| "visit_child (Literal ty v) lastIndex = (Literal ty v, lastIndex)"
| "visit_child (Parent ty cs) lastIndex =
     (case visit_children cs lastIndex of (cs', l) \<Rightarrow> (Parent ty cs', l))"
| "visit_children [] lastIndex = ([], lastIndex)"
| "visit_children (c # cs) lastIndex =
     (case visit_child c lastIndex of
        (c', l1) \<Rightarrow> (case visit_children cs l1 of (cs', l2) \<Rightarrow> (c' # cs', l2)))"

definition transformer :: "mdast \<Rightarrow> nat \<Rightarrow> mdast \<times> nat" where
  "transformer tree lastIndex =
     (case tree of
        Text v \<Rightarrow> (Text v, lastIndex)
      | _ \<Rightarrow> visit_child tree lastIndex)"


text \<open>
  The claim's words: a token is \<open>::\<close>, one or more characters of the class, \<open>::\<close>; a
  token is at position \<open>i\<close> of \<open>s\<close> when \<open>s\<close> continues with one from there.
  \<open>strip_text\<close> replaces in every text node.
\<close>

fun strip_text :: "mdast \<Rightarrow> mdast" where
  "strip_text (Text v) = Text (replace_flags v)"
| "strip_text (Literal ty v) = Literal ty v"
| "strip_text (Parent ty cs) = Parent ty (map strip_text cs)"

definition is_flag_token :: "string \<Rightarrow> bool" where
  "is_flag_token t = (\<exists>w. w \<noteq> [] \<and> list_all is_flag_char w \<and> t = ''::'' @ w @ ''::'')"

definition token_at :: "string \<Rightarrow> nat \<Rightarrow> bool" where
  "token_at s i = (\<exists>t. is_flag_token t \<and> prefix t (drop i s))"

definition flags_doc :: mdast where
  "flags_doc = Parent ''root'' [Parent ''paragraph''
     [Text ''ab ::cl-naive:: cd'', Literal ''inlineCode'' ''::x::'', Text ''::::a::b::'']]"

section \<open>The knowledge tree (codex/types, codex/utils.buildKnowledgeTree)\<close>

datatype item_type = Blob | Tree

record GitTreeItem =
  item_path :: string
  item_type :: item_type
  item_sha :: string
  item_size :: "nat option"

datatype NodeLevel = Fabric | Weave | Loom | Strand | Folder

datatype KnowledgeTreeNode =
  KnowledgeTreeNode (name: string) (path: string) (node_type: file_type)
    (children: "KnowledgeTreeNode list option") (strandCount: nat) (level: NodeLevel)

text \<open>The children of a node, none when the field is absent.\<close>

definition child_nodes :: "KnowledgeTreeNode \<Rightarrow> KnowledgeTreeNode list" where
  "child_nodes n = (case children n of None \<Rightarrow> [] | Some cs \<Rightarrow> cs)"

text \<open>
  Modelled from the spec: \<open>buildKnowledgeTree\<close>, which \<open>useGithubTree\<close> imports from
  \<open>codex/utils\<close>; that module under the sources does not define it. The definitions from
  here to \<open>buildKnowledgeTree\<close> follow section 4.1 of the spec: insertion with on-demand
  creation of missing ancestor directories (steps 1 to 3), a post-order pass for the
  directory counts (step 4), and the sort of every children list (step 6). The level rule
  of step 5 is a parameter \<open>level_of\<close>, a function of depth, type and name: the spec
  states it twice, and the two statements disagree on a file at the repository root.
\<close>

text \<open>
  Modelled from the spec: the split of a path at \<open>/\<close> inside the missing
  \<open>buildKnowledgeTree\<close>; empty segments (leading, trailing or doubled slashes) are
  stripped.
\<close>

fun split_slash :: "string \<Rightarrow> string list" where
  "split_slash [] = [] # []"
| "split_slash (c # s) =
     (if c = CHR ''/'' then [] # split_slash s
      else (case split_slash s of
              [] \<Rightarrow> [c] # []
            | seg # segs \<Rightarrow> (c # seg) # segs))"

definition path_segments :: "string \<Rightarrow> string list" where
  "path_segments p = filter (\<lambda>seg. seg \<noteq> []) (split_slash p)"

text \<open>
  Modelled from the spec: the path of a node of the missing \<open>buildKnowledgeTree\<close>,
  \<open>parent.path + '/' + name\<close>, and the name alone below the synthetic root.
\<close>

definition child_path :: "string \<Rightarrow> string \<Rightarrow> string" where
  "child_path parent seg = (if parent = [] then seg else parent @ ''/'' @ seg)"

text \<open>
  Modelled from the spec: the node type the missing \<open>buildKnowledgeTree\<close> gives an item,
  \<open>file\<close> for a blob and \<open>dir\<close> for a tree.
\<close>

definition node_type_of :: "item_type \<Rightarrow> file_type" where
  "node_type_of ty = (case ty of Blob \<Rightarrow> File | Tree \<Rightarrow> Dir)"

text \<open>
  Modelled from the spec: the node the missing \<open>buildKnowledgeTree\<close> creates at the last
  segment, with the item's type; a markdown file counts 1, a directory has a children
  array (the children seen so far when the path was there already) and a file has none.
  Inserting a path again overwrites the node and does not add to a count.
\<close>

definition leaf_node ::
  "(nat \<Rightarrow> file_type \<Rightarrow> string \<Rightarrow> NodeLevel) \<Rightarrow> nat \<Rightarrow> string \<Rightarrow> string \<Rightarrow> item_type \<Rightarrow> KnowledgeTreeNode list \<Rightarrow>
   KnowledgeTreeNode" where
  "leaf_node level_of depth parent seg ty kept =
     KnowledgeTreeNode seg (child_path parent seg) (node_type_of ty)
       (case ty of Blob \<Rightarrow> None | Tree \<Rightarrow> Some kept)
       (if ty = Blob \<and> isMarkdownFile seg then 1 else 0)
       (level_of depth (node_type_of ty) seg)"

text \<open>
  Modelled from the spec: the directory node the missing \<open>buildKnowledgeTree\<close> creates
  for an intermediate segment, with count 0 until the post-order pass.
\<close>

definition dir_node ::
  "(nat \<Rightarrow> file_type \<Rightarrow> string \<Rightarrow> NodeLevel) \<Rightarrow> nat \<Rightarrow> string \<Rightarrow> string \<Rightarrow> KnowledgeTreeNode list \<Rightarrow> KnowledgeTreeNode" where
  "dir_node level_of depth parent seg cs =
     KnowledgeTreeNode seg (child_path parent seg) Dir (Some cs) 0 (level_of depth Dir seg)"

text \<open>
  Modelled from the spec: the walk of the missing \<open>buildKnowledgeTree\<close> from the
  synthetic root along the segments of one item: at each segment the child of that name
  is looked up among the children in first-seen order, created at the end when missing,
  and descended into; an intermediate node is a directory.
\<close>

fun insert_at ::
  "(nat \<Rightarrow> file_type \<Rightarrow> string \<Rightarrow> NodeLevel) \<Rightarrow> nat \<Rightarrow> string \<Rightarrow> string list \<Rightarrow> item_type \<Rightarrow>
   KnowledgeTreeNode list \<Rightarrow> KnowledgeTreeNode list" where
  "insert_at level_of depth parent [] ty nodes = nodes"
| "insert_at level_of depth parent [seg] ty [] = [leaf_node level_of depth parent seg ty []]"
| "insert_at level_of depth parent (seg # next # rest) ty [] =
     [dir_node level_of depth parent seg
        (insert_at level_of (Suc depth) (child_path parent seg) (next # rest) ty [])]"
| "insert_at level_of depth parent [seg] ty (n # nodes) =
     (if name n = seg then leaf_node level_of depth parent seg ty (child_nodes n) # nodes
      else n # insert_at level_of depth parent [seg] ty nodes)"
| "insert_at level_of depth parent (seg # next # rest) ty (n # nodes) =
     (if name n = seg
      then dir_node level_of depth parent seg
             (insert_at level_of (Suc depth) (child_path parent seg) (next # rest) ty (child_nodes n))
           # nodes
      else n # insert_at level_of depth parent (seg # next # rest) ty nodes)"

text \<open>
  Modelled from the spec: the insertion of one item by the missing
  \<open>buildKnowledgeTree\<close>; the top-level nodes have depth 1 and no parent path.
\<close>

definition insert_item ::
  "(nat \<Rightarrow> file_type \<Rightarrow> string \<Rightarrow> NodeLevel) \<Rightarrow> KnowledgeTreeNode list \<Rightarrow> GitTreeItem \<Rightarrow> KnowledgeTreeNode list" where
  "insert_item level_of root item =
     insert_at level_of 1 [] (path_segments (item_path item)) (item_type item) root"

text \<open>
  Modelled from the spec: the post-order pass of the missing \<open>buildKnowledgeTree\<close>,
  after which the count of a directory is the sum of the counts of its children.
\<close>

fun count_strands :: "KnowledgeTreeNode \<Rightarrow> KnowledgeTreeNode" where
  "count_strands (KnowledgeTreeNode nm p ty cs sc lv) =
     (case ty of
        File \<Rightarrow> KnowledgeTreeNode nm p ty cs sc lv
      | Dir \<Rightarrow>
          (let cs' = map count_strands (case cs of None \<Rightarrow> [] | Some l \<Rightarrow> l)
           in KnowledgeTreeNode nm p ty (Some cs') (sum_list (map strandCount cs')) lv))"

text \<open>
  Modelled from the spec: the order of the children in the missing
  \<open>buildKnowledgeTree\<close>, directories before files and then the lower-cased names in
  lexical order of their code units.
\<close>

fun lex_le :: "string \<Rightarrow> string \<Rightarrow> bool" where
  "lex_le [] t = True"
| "lex_le (c # s) [] = False"
| "lex_le (c # s) (d # t) =
     ((of_char c :: nat) < of_char d \<or> (c = d \<and> lex_le s t))"

definition node_before :: "KnowledgeTreeNode \<Rightarrow> KnowledgeTreeNode \<Rightarrow> bool" where
  "node_before a b =
     (if node_type a \<noteq> node_type b then node_type a = Dir
      else lex_le (toLowerCase (name a)) (toLowerCase (name b)))"

text \<open>
  Modelled from the spec: the sort of a children list in the missing
  \<open>buildKnowledgeTree\<close>, as a stable insertion sort, applied to every list of the tree.
\<close>

fun insert_sorted :: "KnowledgeTreeNode \<Rightarrow> KnowledgeTreeNode list \<Rightarrow> KnowledgeTreeNode list" where
  "insert_sorted n [] = [n]"
| "insert_sorted n (m # ms) =
     (if node_before n m then n # m # ms else m # insert_sorted n ms)"

definition sort_nodes :: "KnowledgeTreeNode list \<Rightarrow> KnowledgeTreeNode list" where
  "sort_nodes ns = foldr insert_sorted ns []"

fun sort_children :: "KnowledgeTreeNode \<Rightarrow> KnowledgeTreeNode" where
  "sort_children (KnowledgeTreeNode nm p ty cs sc lv) =
     KnowledgeTreeNode nm p ty
       (case cs of None \<Rightarrow> None | Some l \<Rightarrow> Some (sort_nodes (map sort_children l))) sc lv"

text \<open>
  Modelled from the spec: \<open>buildKnowledgeTree\<close> itself, which is missing from the
  sources: all items inserted into the empty forest, then the count pass and the sort; the
  empty list gives the empty list.
\<close>

definition buildKnowledgeTree ::
  "(nat \<Rightarrow> file_type \<Rightarrow> string \<Rightarrow> NodeLevel) \<Rightarrow> GitTreeItem list \<Rightarrow> KnowledgeTreeNode list" where
  "buildKnowledgeTree level_of items =
     sort_nodes (map sort_children (map count_strands (foldl (insert_item level_of) [] items)))"

text \<open>
  The invariant of the claim on a node and everything below it: a directory's count is the
  sum of its children's counts, a file's count is 1 when its name is markdown and 0
  otherwise.
\<close>

fun counts_ok :: "KnowledgeTreeNode \<Rightarrow> bool" where
  "counts_ok (KnowledgeTreeNode nm p ty cs sc lv) =
     ((case ty of
         Dir \<Rightarrow> sc = sum_list (map strandCount (case cs of None \<Rightarrow> [] | Some l \<Rightarrow> l))
       | File \<Rightarrow> sc = (if isMarkdownFile nm then 1 else 0)) \<and>
      (case cs of None \<Rightarrow> True | Some l \<Rightarrow> \<forall>c\<in>set l. counts_ok c))"

text \<open>
  What insertion guarantees before the count pass: a file has no children and counts 1
  exactly when it is markdown.
\<close>

fun inserted_ok :: "KnowledgeTreeNode \<Rightarrow> bool" where
  "inserted_ok (KnowledgeTreeNode nm p ty cs sc lv) =
     ((ty = File \<longrightarrow> cs = None \<and> sc = (if isMarkdownFile nm then 1 else 0)) \<and>
      (case cs of None \<Rightarrow> True | Some l \<Rightarrow> \<forall>c\<in>set l. inserted_ok c))"

text \<open>
  An input: the scenario of the spec's section 8 with a markdown file at the root and a
  directory entry, and a level rule that follows the data-model invariants of its section 3.
\<close>

definition tree_item :: "string \<Rightarrow> item_type \<Rightarrow> GitTreeItem" where
  "tree_item p ty = \<lparr>item_path = p, item_type = ty, item_sha = '''', item_size = None\<rparr>"

definition example_items :: "GitTreeItem list" where
  "example_items = [tree_item ''weaves/a/one.md'' Blob, tree_item ''weaves/a/sub/two.md'' Blob,
     tree_item ''weaves/b/readme.txt'' Blob, tree_item ''README.md'' Blob, tree_item ''weaves/a'' Tree]"


definition levels_by_depth :: "nat \<Rightarrow> file_type \<Rightarrow> string \<Rightarrow> NodeLevel" where
  "levels_by_depth depth ty nm =
     (case ty of
        Dir \<Rightarrow> if depth = 1 then Weave else Loom
      | File \<Rightarrow> if isMarkdownFile nm then Strand else Folder)"

section \<open>Theorems\<close>

subsection \<open>Strings\<close>

lemma lower_unit_plus_32:
  "is_upper_unit c \<Longrightarrow> (of_char (lower_unit c) :: nat) = of_char c + 32"
  by (cases c) (auto simp: lower_unit_def is_upper_unit_def Let_def of_bool_def split: if_splits)

lemma string_includes_sublist: "string_includes s q = sublist q s"
  by (induction s) (auto simp: sublist_Cons_right)

subsection \<open>Cache\<close>

lemma run_calls_Nil [simp]: "run_calls [] cache = cache"
  by (simp add: run_calls_def)

lemma run_calls_snoc [simp]: "run_calls (calls @ [c]) cache = run_call (run_calls calls cache) c"
  by (simp add: run_calls_def)

lemma map_of_run_calls_unwritten:
  "p \<notin> written_paths calls \<Longrightarrow> map_of (run_calls calls []) p = None"
proof (induction calls rule: rev_induct)
  case Nil
  then show ?case by simp
next
  case (snoc c calls)
  then have ih: "map_of (run_calls calls []) p = None"
    by (simp add: written_paths_def)
  show ?case
  proof (cases c)
    case (SetCachedStrand now q content)
    with snoc.prems have "q \<noteq> p"
      by (auto simp: written_paths_def)
    with ih SetCachedStrand show ?thesis
      by (simp add: setCachedStrand_def update_conv')
  next
    case ClearCodexCache
    then show ?thesis by (simp add: clearCodexCache_def)
  qed
qed

text \<open>
  C7: for a non-empty path \<open>p\<close> and any content \<open>c\<close>, \<open>getCachedStrand(p)\<close> right after
  \<open>setCachedStrand(p, c)\<close> returns \<open>c\<close>, whatever the cache held before; and after any
  sequence of calls from the initial empty cache that never stores \<open>p\<close>,
  \<open>getCachedStrand(p)\<close> returns null.
\<close>

theorem cache_round_trip:
  "(p \<noteq> [] \<longrightarrow> getCachedStrand (setCachedStrand now p c cache) p = Some c) \<and>
   (q \<notin> written_paths calls \<longrightarrow> getCachedStrand (run_calls calls []) q = None)"
  by (simp add: getCachedStrand_def setCachedStrand_def update_conv' map_of_run_calls_unwritten)

theorem cache_round_trip_witness:
  "''weaves/a.md'' \<noteq> [] \<and>
   getCachedStrand (setCachedStrand ''t1'' ''weaves/a.md'' ''# A''
      (setCachedStrand ''t0'' ''weaves/a.md'' ''old'' [])) ''weaves/a.md'' = Some ''# A'' \<and>
   ''weaves/b.md'' \<notin> written_paths [SetCachedStrand ''t0'' ''weaves/a.md'' ''old''] \<and>
   getCachedStrand (run_calls [SetCachedStrand ''t0'' ''weaves/a.md'' ''old''] []) ''weaves/b.md'' = None"
  using cache_round_trip [of "''weaves/a.md''" "''t1''" "''# A''"
      "setCachedStrand ''t0'' ''weaves/a.md'' ''old'' []" "''weaves/b.md''"
      "[SetCachedStrand ''t0'' ''weaves/a.md'' ''old'']"]
  by (simp add: written_paths_def)

lemma writes_Nil [simp]: "writes [] = []"
  by (simp add: writes_def since_last_clear_def)

lemma writes_snoc [simp]:
  "writes (calls @ [c]) = (if c = ClearCodexCache then [] else writes calls @ write_of c)"
  by (simp add: writes_def since_last_clear_def)

lemma run_calls_inv:
  "distinct (map fst (run_calls calls [])) \<and>
   (\<forall>p. map_option row_content (map_of (run_calls calls []) p) = map_of (rev (writes calls)) p)"
proof (induction calls rule: rev_induct)
  case Nil
  then show ?case by simp
next
  case (snoc c calls)
  show ?case
  proof (cases c)
    case (SetCachedStrand now q content)
    with snoc show ?thesis
      by (simp add: setCachedStrand_def update_conv' distinct_update)
  next
    case ClearCodexCache
    then show ?thesis by (simp add: clearCodexCache_def)
  qed
qed

lemma foldl_bytes:
  "foldl (\<lambda>total (k, row). total + length (row_content row)) n cache =
     n + sum_list (map (\<lambda>kv. length (row_content (snd kv))) cache)"
  by (induction cache arbitrary: n) (auto simp: case_prod_beta)

lemma alist_sum_keys:
  assumes "distinct (map fst al)"
  shows "sum_list (map (\<lambda>kv. f (snd kv)) al) = (\<Sum>k\<in>fst ` set al. f (the (map_of al k)))"
proof -
  from assms have d: "distinct al" by (rule distinct_map[THEN iffD1, THEN conjunct1])
  from assms have inj: "inj_on fst (set al)" by (simp add: distinct_map)
  have "sum_list (map (\<lambda>kv. f (snd kv)) al) = (\<Sum>kv\<in>set al. f (snd kv))"
    using d by (simp add: sum_list_distinct_conv_sum_set)
  also have "\<dots> = (\<Sum>kv\<in>set al. f (the (map_of al (fst kv))))"
    using assms by (intro sum.cong) auto
  also have "\<dots> = (\<Sum>k\<in>fst ` set al. f (the (map_of al k)))"
    using inj by (simp add: sum.reindex)
  finally show ?thesis .
qed

text \<open>
  C10: after any sequence of \<open>setCachedStrand\<close> and \<open>clearCodexCache\<close> calls on the
  initial cache, \<open>getCodexCacheStats\<close> reports as \<open>totalItems\<close> the number of distinct
  non-empty paths written since the last clear and as \<open>totalBytes\<close> the sum, over these
  paths, of the length of the content stored last under the path; a call with the empty
  path leaves the cache as it is and reads nothing.
\<close>

theorem cache_stats:
  "getCodexCacheStats (run_calls calls []) =
     \<lparr>totalItems = card (fst ` set (writes calls)),
      totalBytes = (\<Sum>p\<in>fst ` set (writes calls). length (the (latest_content calls p)))\<rparr> \<and>
   setCachedStrand now [] c cache = cache \<and>
   getCachedStrand cache [] = None"
proof -
  let ?m = "run_calls calls []"
  from run_calls_inv [of calls] have d: "distinct (map fst ?m)"
    and c: "\<And>p. map_option row_content (map_of ?m p) = map_of (rev (writes calls)) p"
    by auto
  have keys: "fst ` set ?m = fst ` set (writes calls)"
  proof -
    have "fst ` set ?m = dom (map_of ?m)" by (simp add: dom_map_of_conv_image_fst)
    also have "\<dots> = dom (map_of (rev (writes calls)))"
    proof -
      have "(map_of ?m p = None) = (map_of (rev (writes calls)) p = None)" for p
        by (simp add: c [symmetric])
      then show ?thesis by (auto simp: dom_def)
    qed
    also have "\<dots> = fst ` set (writes calls)" by (simp add: dom_map_of_conv_image_fst)
    finally show ?thesis .
  qed
  have items: "length ?m = card (fst ` set (writes calls))"
    using d keys by (metis distinct_card length_map set_map)
  have "sum_list (map (\<lambda>kv. length (row_content (snd kv))) ?m) =
          (\<Sum>k\<in>fst ` set ?m. length (row_content (the (map_of ?m k))))"
    using d by (rule alist_sum_keys)
  also have "\<dots> = (\<Sum>p\<in>fst ` set (writes calls). length (the (latest_content calls p)))"
    unfolding keys
  proof (rule sum.cong)
    fix p assume "p \<in> fst ` set (writes calls)"
    then have "p \<in> dom (map_of ?m)" using keys by (simp add: dom_map_of_conv_image_fst)
    then obtain row where r: "map_of ?m p = Some row" by auto
    with c [of p, symmetric]
    show "length (row_content (the (map_of ?m p))) = length (the (latest_content calls p))"
      by (simp add: latest_content_def)
  qed simp
  finally have bytes: "foldl (\<lambda>total (k, row). total + length (row_content row)) 0 ?m =
      (\<Sum>p\<in>fst ` set (writes calls). length (the (latest_content calls p)))"
    by (simp add: foldl_bytes)
  show ?thesis
    using items bytes by (simp add: getCodexCacheStats_def setCachedStrand_def getCachedStrand_def)
qed

subsection \<open>Search engine\<close>

text \<open>
  C6: for every query and every options value, \<open>search\<close> returns the empty list, on the
  fresh engine and after indexing any file set, and \<open>canUseSemantic()\<close> returns false.
\<close>

theorem search_engine_placeholder:
  "search eng q opts = [] \<and>
   search (index fs eng) q opts = [] \<and>
   canUseSemantic eng = False \<and>
   canUseSemantic (index fs eng) = False"
  by (simp add: search_def canUseSemantic_def)

subsection \<open>Search/filter hook\<close>

lemma filteredFiles_query:
  "filteredFiles fs options = filter (query_predicate options) fs"
proof (cases "query options = []")
  case True
  then show ?thesis
    by (simp add: filteredFiles_def query_predicate_def)
next
  case False
  then show ?thesis
    by (auto simp: filteredFiles_def query_predicate_def name_matches_def path_matches_def
        fold_case_def string_includes_sublist Let_def intro!: filter_cong)
qed

text \<open>
  C3 (amended): the filtered result of the hook is exactly the files that satisfy the query
  predicate, in their order; the filter scope of the options has no effect on it. The scope
  predicate is not applied to the flat list: in scope \<open>media\<close> with an empty query the
  markdown file \<open>a.md\<close> stays in the result although the scope predicate rejects it.
\<close>

theorem filteredFiles_query_only:
  "filteredFiles fs options = filter (query_predicate options) fs \<and>
   filteredFiles fs (options\<lparr>filterScope := scope\<rparr>) = filteredFiles fs options"
proof -
  have "query_predicate (options\<lparr>filterScope := scope\<rparr>) = query_predicate options"
    by (rule ext) (simp add: query_predicate_def name_matches_def path_matches_def fold_case_def)
  then show ?thesis by (simp add: filteredFiles_query)
qed

theorem filteredFiles_scope_counterexample:
  "filteredFiles [strand_file] media_scope_options = [strand_file] \<and>
   \<not> scope_predicate media_scope_options strand_file"
  by (simp add: filteredFiles_def media_scope_options_def scope_predicate_def shouldShowFile_def
      strand_file_def isMediaFile_def getExtension_def toLowerCase_def lower_unit_def
      is_upper_unit_def MEDIA_EXTENSION_SET_def MEDIA_EXTENSIONS_images_def
      MEDIA_EXTENSIONS_audio_def MEDIA_EXTENSIONS_video_def MEDIA_EXTENSIONS_documents_def)

text \<open>
  C9: with a non-empty query, a file of the list whose path (lower-cased unless the search is
  case-sensitive) contains the query (lower-cased likewise) is kept, whatever \<open>searchNames\<close>
  is, and so is a file whose path contains the query as it is written (on the strings of
  this embedding, whose code units are lower-cased one by one); with \<open>searchNames\<close> off
  the result is exactly the files whose path matches.
\<close>

theorem path_match_not_disabled:
  assumes "query options \<noteq> []"
  shows "(f \<in> set fs \<and> path_matches options f \<longrightarrow> f \<in> set (filteredFiles fs options)) \<and>
         (f \<in> set fs \<and> sublist (query options) (file_path f) \<longrightarrow>
            f \<in> set (filteredFiles fs options)) \<and>
         (\<not> searchNames options \<longrightarrow> filteredFiles fs options = filter (path_matches options) fs)"
proof -
  have "path_matches options f" if "sublist (query options) (file_path f)"
    using that by (simp add: path_matches_def fold_case_def toLowerCase_def map_mono_sublist)
  with assms show ?thesis
    by (auto simp: filteredFiles_query query_predicate_def intro!: filter_cong)
qed

lemma path_query_match: "path_matches path_query_options strand_file"
  by (simp add: path_matches_def path_query_options_def strand_file_def fold_case_def
      toLowerCase_def lower_unit_def is_upper_unit_def string_includes_sublist [symmetric])

theorem path_match_not_disabled_witness:
  "query path_query_options \<noteq> [] \<and> \<not> searchNames path_query_options \<and>
   strand_file \<in> set [strand_file] \<and> path_matches path_query_options strand_file \<and>
   strand_file \<in> set (filteredFiles [strand_file] path_query_options) \<and>
   filteredFiles [strand_file] path_query_options = filter (path_matches path_query_options) [strand_file]"
proof -
  have q: "query path_query_options \<noteq> []" by (simp add: path_query_options_def)
  have n: "\<not> searchNames path_query_options" by (simp add: path_query_options_def)
  from path_match_not_disabled [OF q, of strand_file "[strand_file]"] q n path_query_match
  show ?thesis by simp
qed

subsection \<open>Fetching a file's content\<close>

text \<open>
  What \<open>fetchFileContent\<close> does with the three outcomes of the cache lookup, for a file
  with a download URL and any cache adapter. A lookup that throws reaches the one
  \<open>catch\<close>: \<open>console.error\<close>, the message as error state, loading off, no network fetch,
  content and cache unchanged. A lookup that answers null or the empty string goes to the
  network first. A lookup that answers a non-empty string shows it without a network
  fetch. The in-memory lookup of this repository answers and never throws.
\<close>

lemma fetchFileContent_lookup:
  assumes "file_type file = File" and "download_url file = Some download" and "download \<noteq> []"
  shows "(cache_get (viewer_cache s) (file_path file) = Inl err \<longrightarrow>
            (let s' = fetchFileContent cache_get cache_set fetch parseWikiMetadata currentPath file s
             in error s' = Some (message_or ''Failed to fetch file content'' err) \<and>
                loading s' = False \<and>
                effects s' = effects s @ [ConsoleError ''Error fetching file content:''] \<and>
                fileContent s' = fileContent s \<and> viewer_cache s' = viewer_cache s)) \<and>
         (cache_get (viewer_cache s) (file_path file) = Inr None \<or>
          cache_get (viewer_cache s) (file_path file) = Inr (Some []) \<longrightarrow>
            take 1 (drop (length (effects s))
              (effects (fetchFileContent cache_get cache_set fetch parseWikiMetadata currentPath file s)))
              = [Fetch download]) \<and>
         (cache_get (viewer_cache s) (file_path file) = Inr (Some cached) \<and> cached \<noteq> [] \<longrightarrow>
            (let s' = fetchFileContent cache_get cache_set fetch parseWikiMetadata currentPath file s
             in error s' = None \<and> loading s' = False \<and> fileContent s' = cached \<and>
                effects s' = effects s @
                  [RecordView (file_path file) (file_name file),
                   UpdateURL currentPath (file_path file)]))"
  using assms
  by (auto simp: fetchFileContent_def load_content_def fetch_and_store_def Let_def
      split: sum.splits option.splits)

lemma memory_get_answers: "memory_get c p = Inr (getCachedStrand c p)"
  by (simp add: memory_get_def)

lemma fetchFileContent_miss_example:
  "effects (fetchFileContent memory_get (memory_set ''t'') strand_response id ''weaves''
      strand_file idle_viewer) =
     [Fetch ''https://raw/a.md'', RecordView ''weaves/a.md'' ''a.md'',
      UpdateURL ''weaves'' ''weaves/a.md''] \<and>
   fileContent (fetchFileContent memory_get (memory_set ''t'') strand_response id ''weaves''
      strand_file idle_viewer) = ''# A''"
  by (simp add: fetchFileContent_def load_content_def fetch_and_store_def memory_get_def
      memory_set_def getCachedStrand_def setCachedStrand_def strand_response_def strand_file_def
      idle_viewer_def Let_def)

subsection \<open>Tree fetcher\<close>

lemma branchCandidates_eq:
  "branchCandidates b =
     (if b = [] \<or> b = ''master'' \<or> b = ''main'' then [''master'', ''main'']
      else [''master'', ''main'', b])"
  by (auto simp: branchCandidates_def)

lemma branch_loop_calls:
  "tree_calls (branch_loop gq rest cands s) =
     tree_calls s @ concat (map (candidate_calls gq) (attempted gq rest cands))"
proof (induction cands arbitrary: s)
  case Nil
  then show ?case by (simp add: attempted_def)
next
  case (Cons b cands)
  show ?case
  proof (cases "gq b")
    case (Inr entries)
    then show ?thesis
      by (simp add: attempted_def candidate_succeeds_def candidate_calls_def)
  next
    case gfail: (Inl e)
    show ?thesis
    proof (cases "rest b")
      case (Inr entries)
      with gfail show ?thesis
        by (simp add: attempted_def candidate_succeeds_def candidate_calls_def Let_def)
    next
      case (Inl e')
      with gfail have "\<not> candidate_succeeds gq rest b"
        by (simp add: candidate_succeeds_def)
      then have att: "attempted gq rest (b # cands) = b # attempted gq rest cands"
        by (simp add: attempted_def)
      from gfail Inl show ?thesis
        by (simp add: Let_def Cons.IH att candidate_calls_def)
    qed
  qed
qed

lemma branch_loop_succeeded:
  "\<not> fetchSucceeded s \<Longrightarrow>
   fetchSucceeded (branch_loop gq rest cands s) = list_ex (candidate_succeeds gq rest) cands"
proof (induction cands arbitrary: s)
  case Nil
  then show ?case by simp
next
  case (Cons b cands)
  then show ?case
    by (cases "gq b"; cases "rest b") (simp_all add: candidate_succeeds_def Let_def)
qed

lemma branch_loop_BRANCH:
  "list_ex (candidate_succeeds gq rest) cands \<Longrightarrow>
   BRANCH (branch_loop gq rest cands s) = hd (dropWhile (\<lambda>b. \<not> candidate_succeeds gq rest b) cands)"
proof (induction cands arbitrary: s)
  case Nil
  then show ?case by simp
next
  case (Cons b cands)
  then show ?case
    by (cases "gq b"; cases "rest b") (simp_all add: candidate_succeeds_def Let_def)
qed

lemma branch_loop_lastError:
  "\<not> list_ex (candidate_succeeds gq rest) cands \<Longrightarrow> cands \<noteq> [] \<Longrightarrow>
   (case lastError (branch_loop gq rest cands s) of
      Some e \<Rightarrow> e
    | None \<Rightarrow> Error ''Unable to fetch Git tree from GitHub.'') = last_rest_error rest cands"
proof (induction cands arbitrary: s)
  case Nil
  then show ?case by simp
next
  case (Cons b cands)
  from Cons.prems(1) obtain e e' where g: "gq b = Inl e" and r: "rest b = Inl e'"
    by (cases "gq b"; cases "rest b") (auto simp: candidate_succeeds_def)
  show ?case
  proof (cases "cands = []")
    case True
    with g r show ?thesis
      by (cases e') (simp_all add: Let_def last_rest_error_def)
  next
    case False
    from Cons.prems(1) have "\<not> list_ex (candidate_succeeds gq rest) cands" by simp
    from Cons.IH [OF this False] g r False show ?thesis
      by (simp add: Let_def last_rest_error_def)
  qed
qed

lemma branchCandidates_not_Nil: "branchCandidates b \<noteq> []"
  by (simp add: branchCandidates_eq)

text \<open>
  C5: the candidates are \<open>master\<close>, \<open>main\<close> and the configured branch, without
  repetition and without the empty name. The calls the tree fetcher makes are, for each
  attempted candidate in this order, GraphQL and then REST once if GraphQL failed, where the
  attempted candidates are the failing ones before the first that succeeds, and that one:
  no candidate after the first success is called. The fetch succeeds exactly when some
  candidate does and then sets the branch to the first such candidate; otherwise it throws
  the last REST error, or the fixed error when that is nullish. The same holds of the loop
  on any list of candidates.
\<close>

theorem branch_candidates_in_order:
  "branchCandidates b =
     (if b = [] \<or> b = ''master'' \<or> b = ''main'' then [''master'', ''main'']
      else [''master'', ''main'', b]) \<and>
   tree_calls (fetch_state (fetch_entries gq rest s)) =
     tree_calls s @
     concat (map (candidate_calls gq) (attempted gq rest (branchCandidates (BRANCH s)))) \<and>
   fetch_thrown (fetch_entries gq rest s) =
     (if list_ex (candidate_succeeds gq rest) (branchCandidates (BRANCH s)) then None
      else Some (last_rest_error rest (branchCandidates (BRANCH s)))) \<and>
   (list_ex (candidate_succeeds gq rest) (branchCandidates (BRANCH s)) \<longrightarrow>
      BRANCH (fetch_state (fetch_entries gq rest s)) =
        hd (dropWhile (\<lambda>b. \<not> candidate_succeeds gq rest b) (branchCandidates (BRANCH s)))) \<and>
   tree_calls (branch_loop gq rest cands s) =
     tree_calls s @ concat (map (candidate_calls gq) (attempted gq rest cands)) \<and>
   (\<not> fetchSucceeded s \<longrightarrow>
      fetchSucceeded (branch_loop gq rest cands s) = list_ex (candidate_succeeds gq rest) cands) \<and>
   (list_ex (candidate_succeeds gq rest) cands \<longrightarrow>
      BRANCH (branch_loop gq rest cands s) =
        hd (dropWhile (\<lambda>b. \<not> candidate_succeeds gq rest b) cands)) \<and>
   isl (fetch_entries gq rest s) =
     (\<not> list_ex (candidate_succeeds gq rest) (branchCandidates (BRANCH s)))"
proof -
  let ?cands = "branchCandidates (BRANCH s)"
  let ?s0 = "s\<lparr>rawEntries := [], fetchSucceeded := False, lastError := None\<rparr>"
  let ?s1 = "branch_loop gq rest ?cands ?s0"
  have ok: "fetchSucceeded ?s1 = list_ex (candidate_succeeds gq rest) ?cands"
    by (simp add: branch_loop_succeeded)
  have calls: "tree_calls ?s1 =
      tree_calls s @ concat (map (candidate_calls gq) (attempted gq rest ?cands))"
    by (simp add: branch_loop_calls)
  have st: "fetch_state (fetch_entries gq rest s) = ?s1"
    by (simp add: fetch_entries_def fetch_state_def Let_def)
  have thrown: "fetch_thrown (fetch_entries gq rest s) =
      (if list_ex (candidate_succeeds gq rest) ?cands then None
       else Some (last_rest_error rest ?cands))"
    using ok branch_loop_lastError [of gq rest ?cands ?s0] branchCandidates_not_Nil [of "BRANCH s"]
    by (simp add: fetch_entries_def fetch_thrown_def Let_def)
  have br: "list_ex (candidate_succeeds gq rest) ?cands \<longrightarrow>
      BRANCH ?s1 = hd (dropWhile (\<lambda>b. \<not> candidate_succeeds gq rest b) ?cands)"
    by (simp add: branch_loop_BRANCH)
  have fails: "isl (fetch_entries gq rest s) = (\<not> list_ex (candidate_succeeds gq rest) ?cands)"
    using ok by (simp add: fetch_entries_def Let_def)
  show ?thesis
    unfolding st using calls thrown br fails
    by (simp add: branchCandidates_eq branch_loop_calls branch_loop_succeeded branch_loop_BRANCH
        del: branch_loop.simps)
qed

theorem branch_candidates_in_order_witness:
  "branchCandidates ''dev'' = [''master'', ''main'', ''dev''] \<and>
   tree_calls (fetch_state (fetch_entries graphql_down rest_main_only idle_tree_fetch)) =
     [GraphQL ''master'', REST ''master'', GraphQL ''main'', REST ''main''] \<and>
   list_ex (candidate_succeeds graphql_down rest_main_only) (branchCandidates ''dev'') \<and>
   fetch_thrown (fetch_entries graphql_down rest_main_only idle_tree_fetch) = None \<and>
   BRANCH (fetch_state (fetch_entries graphql_down rest_main_only idle_tree_fetch)) = ''main'' \<and>
   \<not> fetchSucceeded idle_tree_fetch \<and>
   fetchSucceeded (branch_loop graphql_down rest_main_only (branchCandidates ''dev'') idle_tree_fetch) \<and>
   tree_calls (fetch_state (fetch_entries graphql_down rest_rejects_null idle_tree_fetch)) =
     [GraphQL ''master'', REST ''master'', GraphQL ''main'', REST ''main'',
      GraphQL ''dev'', REST ''dev''] \<and>
   fetch_thrown (fetch_entries graphql_down rest_rejects_null idle_tree_fetch) =
     Some (Error ''Unable to fetch Git tree from GitHub.'')"
proof -
  have b: "BRANCH idle_tree_fetch = ''dev''" and c: "tree_calls idle_tree_fetch = []"
    and f: "\<not> fetchSucceeded idle_tree_fetch"
    by (simp_all add: idle_tree_fetch_def)
  from branch_candidates_in_order [of "''dev''" graphql_down rest_main_only idle_tree_fetch
      "branchCandidates ''dev''"]
    branch_candidates_in_order [of "''dev''" graphql_down rest_rejects_null idle_tree_fetch
      "branchCandidates ''dev''"]
    b c f
  show ?thesis
    by (simp add: branchCandidates_eq graphql_down_def rest_main_only_def rest_rejects_null_def
        candidate_succeeds_def candidate_calls_def attempted_def last_rest_error_def
        del: branch_loop.simps)
qed

subsection \<open>Control-flag strip pass\<close>

lemma colon_not_flag_char [simp]: "\<not> is_flag_char CHR '':''"
  by (simp add: is_flag_char_def)

lemma match_flag_token:
  assumes "is_flag_token t"
  shows "match_flag (t @ r) = Some r"
proof -
  from assms obtain w where w: "w \<noteq> []" "list_all is_flag_char w" and t: "t = ''::'' @ w @ ''::''"
    by (auto simp: is_flag_token_def)
  have d: "drop 2 (t @ r) = w @ ''::'' @ r" by (simp add: t)
  have tw: "takeWhile is_flag_char (w @ ''::'' @ r) = w"
    using w(2) by (simp add: takeWhile_append2 list_all_iff)
  have dw: "dropWhile is_flag_char (w @ ''::'' @ r) = ''::'' @ r"
    using w(2) by (simp add: dropWhile_append2 list_all_iff)
  have p: "prefix ''::'' (t @ r)" by (simp add: t)
  show ?thesis
    unfolding match_flag_def Let_def d tw dw using p w(1) by simp
qed

lemma match_flag_Some:
  assumes "match_flag s = Some r"
  shows "\<exists>t. is_flag_token t \<and> s = t @ r"
proof -
  let ?w = "takeWhile is_flag_char (drop 2 s)"
  let ?a = "dropWhile is_flag_char (drop 2 s)"
  from assms have p: "prefix ''::'' s" and w: "?w \<noteq> []" and a: "prefix ''::'' ?a"
    and r: "r = drop 2 ?a"
    by (auto simp: match_flag_def Let_def split: if_splits)
  from p have s: "s = ''::'' @ drop 2 s" by (auto simp: prefix_def)
  from a r have a': "?a = ''::'' @ r" by (auto simp: prefix_def)
  have "drop 2 s = ?w @ ?a" by simp
  with s a' have "s = (''::'' @ ?w @ ''::'') @ r" by (metis append.assoc)
  moreover have "is_flag_token (''::'' @ ?w @ ''::'')"
    unfolding is_flag_token_def using w
    by (intro exI [of _ ?w]) (auto simp: list_all_iff dest: set_takeWhileD)
  ultimately show ?thesis by blast
qed

lemma token_at_match: "token_at s i = (match_flag (drop i s) \<noteq> None)"
proof
  assume "token_at s i"
  then obtain t r where "is_flag_token t" "drop i s = t @ r"
    by (auto simp: token_at_def prefix_def)
  then show "match_flag (drop i s) \<noteq> None"
    by (simp add: match_flag_token)
next
  assume "match_flag (drop i s) \<noteq> None"
  then obtain r where "match_flag (drop i s) = Some r" by auto
  from match_flag_Some [OF this] show "token_at s i"
    by (auto simp: token_at_def)
qed

lemma replace_flags_no_match: "first_match_end s = None \<Longrightarrow> replace_flags s = s"
  by (induction s rule: replace_flags.induct) (auto split: option.splits)

lemma first_match_end_None: "(\<And>i. \<not> token_at s i) \<Longrightarrow> first_match_end s = None"
proof (induction s rule: first_match_end.induct)
  case 1
  then show ?case by simp
next
  case (2 c s)
  from "2.prems" [of 0] have m: "match_flag (c # s) = None"
    by (simp add: token_at_match)
  have "\<not> token_at s i" for i
    using "2.prems" [of "Suc i"] by (simp add: token_at_match)
  with "2.IH" m show ?case by simp
qed

lemma replace_flags_leftmost:
  assumes "is_flag_token t" and "\<And>i. i < length pre \<Longrightarrow> \<not> token_at (pre @ t @ r) i"
  shows "replace_flags (pre @ t @ r) = pre @ replace_flags r"
  using assms(2)
proof (induction pre)
  case Nil
  from assms(1) have m: "match_flag (t @ r) = Some r" by (rule match_flag_token)
  from assms(1) obtain c t' where "t = c # t'"
    by (cases t) (auto simp: is_flag_token_def)
  with m show ?case by simp
next
  case (Cons c pre)
  from Cons.prems [of 0] have m: "match_flag (c # pre @ t @ r) = None"
    by (simp add: token_at_match)
  have "\<not> token_at (pre @ t @ r) i" if "i < length pre" for i
    using Cons.prems [of "Suc i"] that by (simp add: token_at_match)
  with Cons.IH m show ?case by simp
qed

lemma visitor_fresh: "visitor v 0 = (replace_flags v, 0)"
  by (simp add: visitor_def regex_test_def regex_replace_def replace_flags_no_match
      split: option.splits)

lemma visit_fresh:
  "l = 0 \<Longrightarrow> visit_child t l = (strip_text t, 0)"
  "l = 0 \<Longrightarrow> visit_children ts l = (map strip_text ts, 0)"
  by (induction t l and ts l rule: visit_child_visit_children.induct)
     (auto simp: visitor_fresh)

text \<open>
  C8 (amended): the strip pass, started with \<open>lastIndex\<close> 0, replaces the value of every
  text node below the root by the result of one left-to-right replacement and leaves
  \<open>lastIndex\<close> at 0: a value with no token is unchanged, and a value whose leftmost token
  \<open>t\<close> follows \<open>pre\<close> becomes \<open>pre\<close> followed by the replacement of the rest. The
  result is not scanned again, so it can contain a token that the removal has put together
  (\<open>::::a::b::\<close> becomes \<open>::b::\<close>).
\<close>

theorem strip_single_pass:
  "transformer (Parent ty cs) 0 = (strip_text (Parent ty cs), 0) \<and>
   ((\<forall>i. \<not> token_at s i) \<longrightarrow> replace_flags s = s) \<and>
   (is_flag_token t \<and> (\<forall>i<length pre. \<not> token_at (pre @ t @ r) i) \<longrightarrow>
      replace_flags (pre @ t @ r) = pre @ replace_flags r)"
  by (simp add: transformer_def visit_fresh replace_flags_leftmost replace_flags_no_match
      first_match_end_None del: visit_child.simps strip_text.simps)

lemma cl_naive_token: "is_flag_token ''::cl-naive::''"
  unfolding is_flag_token_def
  by (intro exI [of _ "''cl-naive''"]) (simp add: is_flag_char_def)

lemma no_token_before: "\<forall>i<length ''ab ''. \<not> token_at (''ab '' @ ''::cl-naive::'' @ '' cd'') i"
  by (simp add: token_at_match match_flag_def is_flag_char_def less_Suc_eq numeral_3_eq_3)

lemma no_token_cd: "\<forall>i. \<not> token_at '' cd'' i"
proof
  fix i :: nat
  have "i = 0 \<or> i = 1 \<or> i = 2 \<or> 3 \<le> i" by arith
  then show "\<not> token_at '' cd'' i"
    by (auto simp: token_at_match match_flag_def)
qed

theorem strip_single_pass_witness:
  "transformer flags_doc 0 =
     (Parent ''root'' [Parent ''paragraph''
        [Text ''ab  cd'', Literal ''inlineCode'' ''::x::'', Text ''::b::'']], 0) \<and>
   (\<forall>i. \<not> token_at '' cd'' i) \<and> replace_flags '' cd'' = '' cd'' \<and>
   is_flag_token ''::cl-naive::'' \<and>
   \<not> token_at (''ab '' @ ''::cl-naive::'' @ '' cd'') 0 \<and>
   \<not> token_at (''ab '' @ ''::cl-naive::'' @ '' cd'') 1 \<and>
   \<not> token_at (''ab '' @ ''::cl-naive::'' @ '' cd'') 2 \<and>
   replace_flags (''ab '' @ ''::cl-naive::'' @ '' cd'') = ''ab '' @ replace_flags '' cd''"
proof -
  have doc: "strip_text flags_doc =
      Parent ''root'' [Parent ''paragraph''
        [Text ''ab  cd'', Literal ''inlineCode'' ''::x::'', Text ''::b::'']]"
    by (simp add: flags_doc_def match_flag_def is_flag_char_def)
  from strip_single_pass [of "''root''" "[Parent ''paragraph''
     [Text ''ab ::cl-naive:: cd'', Literal ''inlineCode'' ''::x::'', Text ''::::a::b::'']]"
     "'' cd''" "''::cl-naive::''" "''ab ''" "'' cd''"]
    doc cl_naive_token no_token_before no_token_cd
  show ?thesis
    unfolding flags_doc_def by (simp del: visit_child.simps strip_text.simps replace_flags.simps)
qed

theorem strip_leaves_token_counterexample:
  "transformer (Parent ''root'' [Text ''::::a::b::'']) 0 = (Parent ''root'' [Text ''::b::''], 0) \<and>
   token_at ''::b::'' 0"
  by (simp add: transformer_def visitor_def regex_test_def regex_replace_def token_at_match
      match_flag_def is_flag_char_def)

subsection \<open>Knowledge tree\<close>

lemma inserted_ok_child_nodes: "inserted_ok n \<Longrightarrow> c \<in> set (child_nodes n) \<Longrightarrow> inserted_ok c"
  by (cases n) (auto simp: child_nodes_def split: option.splits)

lemma inserted_ok_leaf_node:
  "(\<forall>c\<in>set kept. inserted_ok c) \<Longrightarrow> inserted_ok (leaf_node level_of depth parent seg ty kept)"
  by (cases ty) (simp_all add: leaf_node_def node_type_of_def)

lemma inserted_ok_dir_node:
  "(\<forall>c\<in>set cs. inserted_ok c) \<Longrightarrow> inserted_ok (dir_node level_of depth parent seg cs)"
  by (simp add: dir_node_def)

lemma inserted_ok_insert_at:
  "(\<forall>n\<in>set nodes. inserted_ok n) \<Longrightarrow>
   (\<forall>n\<in>set (insert_at level_of depth parent segs ty nodes). inserted_ok n)"
proof (induction level_of depth parent segs ty nodes rule: insert_at.induct)
  case (1 level_of depth parent ty nodes)
  then show ?case by simp
next
  case (2 level_of depth parent seg ty)
  then show ?case by (simp add: inserted_ok_leaf_node)
next
  case (3 level_of depth parent seg "next" rest ty)
  then show ?case by (simp add: inserted_ok_dir_node)
next
  case (4 level_of depth parent seg ty n nodes)
  then show ?case
    by (auto simp: inserted_ok_leaf_node inserted_ok_child_nodes)
next
  case (5 level_of depth parent seg "next" rest ty n nodes)
  show ?case
  proof (cases "name n = seg")
    case True
    from "5.prems" have "\<forall>c\<in>set (child_nodes n). inserted_ok c"
      by (auto intro: inserted_ok_child_nodes)
    with "5.IH"(1) [OF True] have
      "\<forall>c\<in>set (insert_at level_of (Suc depth) (child_path parent seg) (next # rest) ty (child_nodes n)).
          inserted_ok c"
      by blast
    with True "5.prems" show ?thesis
      by (simp add: inserted_ok_dir_node)
  next
    case False
    with "5.IH"(2) "5.prems" show ?thesis by simp
  qed
qed

lemma inserted_ok_foldl:
  "(\<forall>n\<in>set root. inserted_ok n) \<Longrightarrow>
   (\<forall>n\<in>set (foldl (insert_item level_of) root items). inserted_ok n)"
proof (induction items arbitrary: root)
  case Nil
  then show ?case by simp
next
  case (Cons i items)
  from Cons.prems have "\<forall>n\<in>set (insert_item level_of root i). inserted_ok n"
    unfolding insert_item_def by (rule inserted_ok_insert_at)
  from Cons.IH [OF this] show ?case by simp
qed

lemma counts_ok_count_strands: "inserted_ok n \<Longrightarrow> counts_ok (count_strands n)"
proof (induction n rule: count_strands.induct)
  case (1 nm p ty cs sc lv)
  show ?case
  proof (cases ty)
    case File
    with "1.prems" show ?thesis by simp
  next
    case Dir
    with "1.prems" "1.IH" show ?thesis
      by (auto simp: Let_def split: option.splits)
  qed
qed

lemma set_insert_sorted [simp]: "set (insert_sorted n ns) = insert n (set ns)"
  by (induction ns) auto

lemma set_sort_nodes [simp]: "set (sort_nodes ns) = set ns"
  by (induction ns) (simp_all add: sort_nodes_def)

lemma sum_insert_sorted [simp]:
  "sum_list (map f (insert_sorted n ns)) = (f n :: nat) + sum_list (map f ns)"
  by (induction ns) auto

lemma sum_sort_nodes [simp]:
  "sum_list (map f (sort_nodes ns)) = (sum_list (map f ns) :: nat)"
  by (induction ns) (simp_all add: sort_nodes_def)

lemma strandCount_sort_children [simp]: "strandCount (sort_children n) = strandCount n"
  by (cases n) simp

lemma counts_ok_sort_children: "counts_ok n \<Longrightarrow> counts_ok (sort_children n)"
proof (induction n rule: sort_children.induct)
  case (1 nm p ty cs sc lv)
  then show ?case
    by (cases cs; cases ty) (auto simp: comp_def)
qed

lemma example_tree:
  "buildKnowledgeTree levels_by_depth example_items =
     [KnowledgeTreeNode ''weaves'' ''weaves'' Dir
        (Some
          [KnowledgeTreeNode ''a'' ''weaves/a'' Dir
             (Some
               [KnowledgeTreeNode ''sub'' ''weaves/a/sub'' Dir
                  (Some [KnowledgeTreeNode ''two.md'' ''weaves/a/sub/two.md'' File None 1 Strand])
                  1 Loom,
                KnowledgeTreeNode ''one.md'' ''weaves/a/one.md'' File None 1 Strand])
             2 Loom,
           KnowledgeTreeNode ''b'' ''weaves/b'' Dir
             (Some [KnowledgeTreeNode ''readme.txt'' ''weaves/b/readme.txt'' File None 0 Folder])
             0 Loom])
        2 Weave,
      KnowledgeTreeNode ''README.md'' ''README.md'' File None 1 Strand]"
  by code_simp

text \<open>
  C1: in every tree that \<open>buildKnowledgeTree\<close> produces, whatever the items and the level
  rule, every directory node has as \<open>strandCount\<close> the sum of the \<open>strandCount\<close> of its
  children, and every file node has \<open>strandCount\<close> 1 when its name has a markdown extension
  and 0 otherwise.
\<close>

theorem strand_counts_consistent:
  "\<forall>n\<in>set (buildKnowledgeTree level_of items). counts_ok n"
proof -
  have "\<forall>n\<in>set (foldl (insert_item level_of) [] items). inserted_ok n"
    by (rule inserted_ok_foldl) simp
  then show ?thesis
    by (auto simp: buildKnowledgeTree_def intro!: counts_ok_sort_children counts_ok_count_strands)
qed


theorem strand_counts_consistent_witness:
  "hd (buildKnowledgeTree levels_by_depth example_items)
     \<in> set (buildKnowledgeTree levels_by_depth example_items) \<and>
   counts_ok (hd (buildKnowledgeTree levels_by_depth example_items)) \<and>
   strandCount (hd (buildKnowledgeTree levels_by_depth example_items)) = 2"
  using strand_counts_consistent [of levels_by_depth example_items]
  by (simp add: example_tree del: counts_ok.simps)

end
